theory Spec2Isabelle
  imports Main "HOL-Library.AList"
begin

section \<open>The working directory\<close>

text \<open>
  A path below the project root is kept as the list of its components; \<open>path_string\<close>
  is the string the code handles (what \<^verbatim>\<open>path.relative(projectDir, ...)\<close> returns on a
  POSIX system: the components joined by a slash, with no leading or trailing slash).
  A file name has no slash in it, so different lists are different strings. Strings
  are lists of code units below 256.

  The directory tree under the project root: an entry is a regular file with its
  content, a directory with its entries, or something else (a link, a socket, ...:
  what \<^verbatim>\<open>Dirent.isFile()\<close> and \<^verbatim>\<open>Dirent.isDirectory()\<close> both deny). File content is one
  string, on disk and read as text (the UTF-8 codec of \<^verbatim>\<open>readFileSync(p, 'utf-8')\<close> and
  \<^verbatim>\<open>writeFileSync(p, s, 'utf-8')\<close> is taken as the identity).
\<close>

type_synonym path = "string list"

datatype node = File string | Dir "(string \<times> node) list" | Other

type_synonym dirents = "(string \<times> node) list"

fun path_string :: "path \<Rightarrow> string" where
  "path_string [] = []"
| "path_string [n] = n"
| "path_string (n # ns) = n @ CHR ''/'' # path_string ns"

text \<open>What is at a path, if anything (\<open>[]\<close> is the project root itself).\<close>

fun lookup :: "dirents \<Rightarrow> path \<Rightarrow> node option" where
  "lookup es [] = Some (Dir es)"
| "lookup es (n # ns) =
     (case map_of es n of
        None \<Rightarrow> None
      | Some (Dir sub) \<Rightarrow> lookup sub ns
      | Some nd \<Rightarrow> (if ns = [] then Some nd else None))"

definition existsSync :: "dirents \<Rightarrow> path \<Rightarrow> bool" where
  "existsSync fs p = (lookup fs p \<noteq> None)"

text \<open>
  \<^verbatim>\<open>fs.readFileSync\<close>: the content of a regular file; it throws (\<open>None\<close>) on anything
  else and on a path the process may not access (\<open>denied\<close>).
\<close>

definition readFileSync :: "(path \<Rightarrow> bool) \<Rightarrow> dirents \<Rightarrow> path \<Rightarrow> string option" where
  "readFileSync denied fs p =
     (if denied p then None
      else case lookup fs p of Some (File c) \<Rightarrow> Some c | _ \<Rightarrow> None)"

text \<open>
  \<^verbatim>\<open>fs.mkdirSync(dir, { recursive: true })\<close>: every missing directory on the way is
  created; it throws (\<open>None\<close>) when a component exists and is not a directory.
\<close>

fun mkdirSync :: "dirents \<Rightarrow> path \<Rightarrow> dirents option" where
  "mkdirSync es [] = Some es"
| "mkdirSync es (n # ns) =
     (case map_of es n of
        None \<Rightarrow>
          (case mkdirSync [] ns of
             None \<Rightarrow> None
           | Some sub' \<Rightarrow> Some (AList.update n (Dir sub') es))
      | Some (Dir sub) \<Rightarrow>
          (case mkdirSync sub ns of
             None \<Rightarrow> None
           | Some sub' \<Rightarrow> Some (AList.update n (Dir sub') es))
      | Some _ \<Rightarrow> None)"

text \<open>
  \<^verbatim>\<open>fs.writeFileSync(file, content)\<close>: creates or overwrites a regular file in an
  existing directory; it throws (\<open>None\<close>) when the parent is missing or is not a
  directory and when the target exists and is not a regular file.
\<close>

fun writeFileSync :: "dirents \<Rightarrow> path \<Rightarrow> string \<Rightarrow> dirents option" where
  "writeFileSync es [] c = None"
| "writeFileSync es [n] c =
     (case map_of es n of
        None \<Rightarrow> Some (AList.update n (File c) es)
      | Some (File old) \<Rightarrow> Some (AList.update n (File c) es)
      | Some _ \<Rightarrow> None)"
| "writeFileSync es (n # ns) c =
     (case map_of es n of
        Some (Dir sub) \<Rightarrow>
          (case writeFileSync sub ns c of
             None \<Rightarrow> None
           | Some sub' \<Rightarrow> Some (AList.update n (Dir sub') es))
      | _ \<Rightarrow> None)"

text \<open>
  \<^verbatim>\<open>restoreFile\<close> (revert.js): make the parent directories, write the content, and
  turn any exception into \<^verbatim>\<open>{ success: false }\<close>. Directories made before a failing
  write stay. The stored content is a string, so \<^verbatim>\<open>content || ''\<close> is the content.
\<close>

definition restoreFile :: "(path \<Rightarrow> bool) \<Rightarrow> dirents \<Rightarrow> path \<Rightarrow> string \<Rightarrow> dirents \<times> bool" where
  "restoreFile denied fs p c =
     (case mkdirSync fs (butlast p) of
        None \<Rightarrow> (fs, False)
      | Some fs1 \<Rightarrow>
          (if denied p then (fs1, False)
           else case writeFileSync fs1 p c of
                  None \<Rightarrow> (fs1, False)
                | Some fs2 \<Rightarrow> (fs2, True)))"

text \<open>The content of the regular file at a path, if there is one.\<close>

definition fileAt :: "dirents \<Rightarrow> path \<Rightarrow> string option" where
  "fileAt fs p = (case lookup fs p of Some (File c) \<Rightarrow> Some c | _ \<Rightarrow> None)"

section \<open>The store\<close>

text \<open>
  The schema of database/init.js:
  \<^verbatim>\<open>projects(id INTEGER PRIMARY KEY AUTOINCREMENT, name TEXT NOT NULL UNIQUE, ...)\<close>,
  \<^verbatim>\<open>files(id ... AUTOINCREMENT, project_id, path TEXT NOT NULL UNIQUE, hash, content,
  modified_at DEFAULT CURRENT_TIMESTAMP)\<close>,
  \<^verbatim>\<open>snapshots(id ... AUTOINCREMENT, project_id, description, created_at DEFAULT
  CURRENT_TIMESTAMP)\<close> and
  \<^verbatim>\<open>snapshot_files(id ... AUTOINCREMENT, snapshot_id, file_id, content)\<close>.
  The records keep the columns the statements of the commands read or write. A table is
  the list of its rows in insertion order, a time stamp is a reading of a clock, and each
  table has the counter AUTOINCREMENT keeps (the largest id it ever gave out).
\<close>

record project_row =
  p_id :: nat
  p_name :: string

record file_row =
  f_id :: nat
  f_project :: nat
  f_path :: path
  f_hash :: string
  f_modified :: nat

record snapshot_row =
  s_id :: nat
  s_project :: nat
  s_description :: string
  s_created :: nat

record sf_row =
  sf_id :: nat
  sf_snapshot :: nat
  sf_file :: nat
  sf_content :: string

record db =
  projects :: "project_row list"
  files :: "file_row list"
  files_seq :: nat
  snapshots :: "snapshot_row list"
  snapshots_seq :: nat
  snapshot_files :: "sf_row list"
  snapshot_files_seq :: nat

text \<open>The id AUTOINCREMENT gives a new row: above every id in the table and the counter.\<close>

definition lastID :: "nat list \<Rightarrow> nat \<Rightarrow> nat" where
  "lastID ids seq = Suc (fold max ids seq)"

text \<open>
  The statements whose callback looks at \<^verbatim>\<open>err\<close>; the environment says which of them
  fail. A statement issued without a callback is taken to succeed. The environment also
  holds what the commands take from outside: the paths the process may not access, the
  name of the working directory, the clock, SHA-256 as a function from content to its hex
  digest, and what \<^verbatim>\<open>new RegExp(src).test(s)\<close> does on a pattern source the matcher
  below does not cover (\<open>None\<close>: the constructor throws).
\<close>

datatype stmt =
  SelectProject | SelectSnapshots | SelectSnapshotFiles
| InsertSnapshot | SelectFiles | DeleteSnapshotFiles | DeleteSnapshot

record env =
  sql_err :: "stmt \<Rightarrow> bool"
  eacces :: "path \<Rightarrow> bool"
  projectName :: string
  clock :: nat
  sha256 :: "string \<Rightarrow> string"
  regexp_other :: "string \<Rightarrow> string \<Rightarrow> bool option"

text \<open>
  A JavaScript value where the commands need more than a string: the result of a
  property read on a plain object is a string, \<^verbatim>\<open>undefined\<close>, or a member inherited
  from \<^verbatim>\<open>Object.prototype\<close>.
\<close>

datatype jsval = Str string | Undefined | Inherited string

text \<open>What a command prints, in order.\<close>

datatype message =
  ErrorFindingProject
| ErrorRetrievingProject
| NoProjectFound
| NoSnapshotsFound
| NoFilesInSnapshot
| Restored path
| FailedToRestore path
| RevertedTo nat
| NoFilesSelected
| SelectiveRestorationCompleted
| Ignored path
| TrackingCompleted
| UncaughtException
| ErrorCreatingSnapshot
| ErrorRetrievingFiles
| SnapshotCreated nat
| ErrorRetrievingSnapshots
| NoSnapshotsAvailable
| ErrorDeletingSnapshotFiles
| ErrorDeletingSnapshot
| SnapshotDeleted nat
| DeletionCanceled
| CaughtError
| NotEnoughSnapshots
| SelectExactlyTwo
| NoMatchingFiles
| DiffBetween nat nat
| SideBySideDiff string jsval jsval

text \<open>\<^verbatim>\<open>SELECT id FROM projects WHERE name = ?\<close>, the first row or nothing.\<close>

definition selectProject :: "env \<Rightarrow> db \<Rightarrow> nat option" where
  "selectProject e d = map_option p_id (find (\<lambda>p. p_name p = projectName e) (projects d))"

text \<open>
  \<^verbatim>\<open>SELECT id, description, created_at FROM snapshots WHERE project_id = ?
  ORDER BY created_at ASC\<close>.
\<close>

definition selectSnapshots :: "db \<Rightarrow> nat \<Rightarrow> snapshot_row list" where
  "selectSnapshots d pid = sort_key s_created (filter (\<lambda>s. s_project s = pid) (snapshots d))"

text \<open>
  \<^verbatim>\<open>SELECT f.path, sf.content FROM snapshot_files sf INNER JOIN files f
  ON sf.file_id = f.id WHERE sf.snapshot_id = ?\<close>.
\<close>

definition selectSnapshotFiles :: "db \<Rightarrow> nat \<Rightarrow> (path \<times> string) list" where
  "selectSnapshotFiles d sid =
     concat (map (\<lambda>sf. map (\<lambda>f. (f_path f, sf_content sf))
                           (filter (\<lambda>f. f_id f = sf_file sf) (files d)))
                 (filter (\<lambda>sf. sf_snapshot sf = sid) (snapshot_files d)))"

section \<open>Revert and selective restore\<close>

text \<open>
  The \<^verbatim>\<open>forEach\<close> of both commands: restore each row in turn, print one line per row,
  go on after a failure.
\<close>

fun restoreEach :: "(path \<Rightarrow> bool) \<Rightarrow> dirents \<Rightarrow> (path \<times> string) list \<Rightarrow> dirents \<times> message list" where
  "restoreEach denied fs [] = (fs, [])"
| "restoreEach denied fs ((p, c) # rows) =
     (case restoreFile denied fs p c of
        (fs1, ok) \<Rightarrow>
          (case restoreEach denied fs1 rows of
             (fs2, out) \<Rightarrow> (fs2, (if ok then Restored p else FailedToRestore p) # out)))"

text \<open>
  \<^verbatim>\<open>revertToSnapshot\<close>, from the project query on; \<open>snapshotId\<close> is the answer to the
  list prompt.
\<close>

definition revertToSnapshot :: "env \<Rightarrow> db \<Rightarrow> dirents \<Rightarrow> nat \<Rightarrow> dirents \<times> message list" where
  "revertToSnapshot e d fs snapshotId =
     (case (if sql_err e SelectProject then None else selectProject e d) of
        None \<Rightarrow> (fs, [ErrorFindingProject])
      | Some pid \<Rightarrow>
          if sql_err e SelectSnapshots \<or> selectSnapshots d pid = []
          then (fs, [NoSnapshotsFound])
          else if sql_err e SelectSnapshotFiles \<or> selectSnapshotFiles d snapshotId = []
          then (fs, [NoFilesInSnapshot])
          else (case restoreEach (eacces e) fs (selectSnapshotFiles d snapshotId) of
                  (fs', out) \<Rightarrow> (fs', out @ [RevertedTo snapshotId])))"



section \<open>Deleting a snapshot\<close>

text \<open>
  The two statements both \<^verbatim>\<open>deleteSnapshot\<close> commands end with, the second in the
  callback of the first. Neither command opens a transaction.
\<close>

definition deleteStatements :: "env \<Rightarrow> db \<Rightarrow> nat \<Rightarrow> db \<times> message list" where
  "deleteStatements e d snapshotId =
     (if sql_err e DeleteSnapshotFiles then (d, [ErrorDeletingSnapshotFiles])
      else let d1 = d\<lparr>snapshot_files := filter (\<lambda>sf. sf_snapshot sf \<noteq> snapshotId) (snapshot_files d)\<rparr>
           in if sql_err e DeleteSnapshot then (d1, [ErrorDeletingSnapshot])
              else (d1\<lparr>snapshots := filter (\<lambda>s. s_id s \<noteq> snapshotId) (snapshots d1)\<rparr>,
                    [SnapshotDeleted snapshotId]))"

text \<open>
  \<^verbatim>\<open>deleteSnapshot\<close> of commands/snapshot.js (the one the menu calls): its listing is
  \<^verbatim>\<open>SELECT id, description FROM snapshots WHERE project_id = ?\<close>.
\<close>

definition deleteSnapshot :: "env \<Rightarrow> db \<Rightarrow> nat \<Rightarrow> db \<times> message list" where
  "deleteSnapshot e d snapshotId =
     (if sql_err e SelectProject then (d, [ErrorRetrievingProject])
      else case selectProject e d of
        None \<Rightarrow> (d, [NoProjectFound])
      | Some pid \<Rightarrow>
          if sql_err e SelectSnapshots then (d, [ErrorRetrievingSnapshots])
          else if length (filter (\<lambda>s. s_project s = pid) (snapshots d)) = 0
          then (d, [NoSnapshotsAvailable])
          else deleteStatements e d snapshotId)"

text \<open>\<^verbatim>\<open>deleteSnapshot\<close> of commands/delete.js, which asks for a confirmation first.\<close>

definition deleteSnapshot_confirm :: "env \<Rightarrow> db \<Rightarrow> nat \<Rightarrow> bool \<Rightarrow> db \<times> message list" where
  "deleteSnapshot_confirm e d snapshotId confirm =
     (case (if sql_err e SelectProject then None else selectProject e d) of
        None \<Rightarrow> (d, [ErrorFindingProject])
      | Some pid \<Rightarrow>
          if sql_err e SelectSnapshots \<or> selectSnapshots d pid = []
          then (d, [NoSnapshotsFound])
          else if \<not> confirm then (d, [DeletionCanceled])
          else deleteStatements e d snapshotId)"

section \<open>The ignore rules and the tracker\<close>

text \<open>
  \<^verbatim>\<open>loadIgnoreRules\<close> (utils/ignore.js): the lines of \<^verbatim>\<open>.svcignore\<close>, trimmed, without
  the empty ones and the comments; no rule when the file is missing. \<open>None\<close>: the read
  throws.
\<close>

fun split_lines :: "string \<Rightarrow> string \<Rightarrow> string list" where
  "split_lines acc [] = [rev acc]"
| "split_lines acc (c # cs) =
     (if c = CHR 0x0A then rev acc # split_lines [] cs else split_lines (c # acc) cs)"

definition white_space :: "char \<Rightarrow> bool" where
  "white_space c = (c \<in> set [CHR 0x09, CHR 0x0A, CHR 0x0B, CHR 0x0C, CHR 0x0D, CHR 0x20, CHR 0xA0])"

definition trim :: "string \<Rightarrow> string" where
  "trim s = rev (dropWhile white_space (rev (dropWhile white_space s)))"

definition startsWith :: "string \<Rightarrow> string \<Rightarrow> bool" where
  "startsWith s pre = (take (length pre) s = pre)"

definition endsWith :: "string \<Rightarrow> string \<Rightarrow> bool" where
  "endsWith s suf = (length suf \<le> length s \<and> drop (length s - length suf) s = suf)"

definition loadIgnoreRules :: "env \<Rightarrow> dirents \<Rightarrow> string list option" where
  "loadIgnoreRules e fs =
     (if \<not> existsSync fs [''.svcignore''] then Some []
      else case readFileSync (eacces e) fs [''.svcignore''] of
             None \<Rightarrow> None
           | Some text \<Rightarrow>
               Some (filter (\<lambda>line. line \<noteq> [] \<and> \<not> startsWith line ''#'' \<and> \<not> startsWith line ''//'')
                      (map trim (split_lines [] text))))"

text \<open>
  The tracker's test of one rule,
  \<^verbatim>\<open>new RegExp(`^${pattern.replace(/\*/g, '.*')}$`).test(entryPath)\<close>.
  Every \<^verbatim>\<open>*\<close> of the rule becomes \<^verbatim>\<open>.*\<close>; the rest of the rule is regular-expression
  source as it stands, so a dot of the rule is the regular expression's dot. A rule made
  of stars, dots and characters that mean themselves is matched here: the dot is any
  character but a line terminator, \<^verbatim>\<open>.*\<close> any run of them, and the whole path has to
  match. Any other rule is left to the environment.
\<close>

datatype tok = Lit char | AnyChar | AnyString

definition syntax_char :: "char \<Rightarrow> bool" where
  "syntax_char c = (c \<in> set [CHR 0x5C, CHR ''^'', CHR ''$'', CHR ''+'', CHR ''?'', CHR ''('', CHR '')'',
                              CHR ''['', CHR '']'', CHR ''{'', CHR ''}'', CHR ''|''])"

fun compile :: "string \<Rightarrow> tok list option" where
  "compile [] = Some []"
| "compile (c # cs) =
     (if c = CHR ''*'' then map_option ((#) AnyString) (compile cs)
      else if c = CHR ''.'' then map_option ((#) AnyChar) (compile cs)
      else if syntax_char c then None
      else map_option ((#) (Lit c)) (compile cs))"

definition line_terminator :: "char \<Rightarrow> bool" where
  "line_terminator c = (c = CHR 0x0A \<or> c = CHR 0x0D)"

fun matches :: "tok list \<Rightarrow> string \<Rightarrow> bool" where
  "matches [] s = (s = [])"
| "matches (Lit c # ts) [] = False"
| "matches (Lit c # ts) (x # xs) = (x = c \<and> matches ts xs)"
| "matches (AnyChar # ts) [] = False"
| "matches (AnyChar # ts) (x # xs) = (\<not> line_terminator x \<and> matches ts xs)"
| "matches (AnyString # ts) [] = matches ts []"
| "matches (AnyString # ts) (x # xs) =
     (matches ts (x # xs) \<or> (\<not> line_terminator x \<and> matches (AnyString # ts) xs))"

definition regexpTest :: "env \<Rightarrow> string \<Rightarrow> string \<Rightarrow> bool option" where
  "regexpTest e pattern entryPath =
     (case compile pattern of
        Some ts \<Rightarrow> Some (matches ts entryPath)
      | None \<Rightarrow> regexp_other e pattern entryPath)"

text \<open>
  \<^verbatim>\<open>ignorePatterns.some(...)\<close>: the rules in order, up to the first that matches;
  \<open>None\<close> when a rule met on the way throws.
\<close>

fun someMatch :: "env \<Rightarrow> string list \<Rightarrow> string \<Rightarrow> bool option" where
  "someMatch e [] entryPath = Some False"
| "someMatch e (pattern # rest) entryPath =
     (case regexpTest e pattern entryPath of
        None \<Rightarrow> None
      | Some True \<Rightarrow> Some True
      | Some False \<Rightarrow> someMatch e rest entryPath)"

text \<open>
  \<^verbatim>\<open>calculateFileHash\<close> (utils/hash.js): read the file, return the hex digest of its
  bytes. The file is the entry the walk is at; \<open>None\<close>: the read throws.
\<close>

definition calculateFileHash :: "env \<Rightarrow> path \<Rightarrow> node \<Rightarrow> string option" where
  "calculateFileHash e filePath nd =
     (case nd of
        File fileBuffer \<Rightarrow> if eacces e filePath then None else Some (sha256 e fileBuffer)
      | _ \<Rightarrow> None)"

text \<open>
  The tracker's two statements for one file: \<^verbatim>\<open>SELECT * FROM files WHERE path = ?\<close>, then
  \<^verbatim>\<open>UPDATE files SET hash = ?, modified_at = CURRENT_TIMESTAMP WHERE path = ?\<close> when there
  is a row and \<^verbatim>\<open>INSERT INTO files (path, hash, project_id, modified_at)\<close> when not.
  The callback does not look at \<^verbatim>\<open>err\<close>; the statements are taken to succeed.
\<close>

definition upsertFile :: "env \<Rightarrow> nat \<Rightarrow> path \<Rightarrow> string \<Rightarrow> db \<Rightarrow> db" where
  "upsertFile e projectId entryPath hash d =
     (case find (\<lambda>r. f_path r = entryPath) (files d) of
        Some row \<Rightarrow>
          d\<lparr>files := map (\<lambda>r. if f_path r = entryPath
                                 then r\<lparr>f_hash := hash, f_modified := clock e\<rparr> else r) (files d)\<rparr>
      | None \<Rightarrow>
          d\<lparr>files := files d @
                 [\<lparr>f_id = lastID (map f_id (files d)) (files_seq d), f_project = projectId,
                   f_path = entryPath, f_hash = hash, f_modified = clock e\<rparr>],
            files_seq := lastID (map f_id (files d)) (files_seq d)\<rparr>)"

text \<open>
  The state of a walk: the store, what was printed, and whether an exception has ended
  the walk (nothing in \<^verbatim>\<open>trackFiles\<close> catches one).
\<close>

record tstate =
  t_db :: db
  t_out :: "message list"
  t_thrown :: bool

text \<open>
  \<^verbatim>\<open>traverseDirectory\<close>: \<open>dir\<close> is the directory's path below the root and the list its
  entries (\<^verbatim>\<open>readdirSync(dir, { withFileTypes: true })\<close>); \<open>visitEntry\<close> is the body of the
  \<^verbatim>\<open>forEach\<close>. The statements of a file are run when they are issued.
\<close>

fun traverseDirectory :: "env \<Rightarrow> string list \<Rightarrow> nat \<Rightarrow> path \<Rightarrow> dirents \<Rightarrow> tstate \<Rightarrow> tstate"
  and visitEntry :: "env \<Rightarrow> string list \<Rightarrow> nat \<Rightarrow> path \<Rightarrow> string \<Rightarrow> node \<Rightarrow> tstate \<Rightarrow> tstate" where
  "traverseDirectory e rules projectId dir [] st = st"
| "traverseDirectory e rules projectId dir ((name, nd) # entries) st =
     (let st1 = visitEntry e rules projectId dir name nd st
      in if t_thrown st1 then st1 else traverseDirectory e rules projectId dir entries st1)"
| "visitEntry e rules projectId dir name nd st =
     (case someMatch e rules (path_string (dir @ [name])) of
        None \<Rightarrow> st\<lparr>t_out := t_out st @ [UncaughtException], t_thrown := True\<rparr>
      | Some True \<Rightarrow> st\<lparr>t_out := t_out st @ [Ignored (dir @ [name])]\<rparr>
      | Some False \<Rightarrow>
          (case nd of
             File content \<Rightarrow>
               (case calculateFileHash e (dir @ [name]) nd of
                  None \<Rightarrow> st\<lparr>t_out := t_out st @ [UncaughtException], t_thrown := True\<rparr>
                | Some hash \<Rightarrow> st\<lparr>t_db := upsertFile e projectId (dir @ [name]) hash (t_db st)\<rparr>)
           | Dir entries \<Rightarrow>
               (if eacces e (dir @ [name])
                then st\<lparr>t_out := t_out st @ [UncaughtException], t_thrown := True\<rparr>
                else traverseDirectory e rules projectId (dir @ [name]) entries st)
           | Other \<Rightarrow> st))"

text \<open>\<^verbatim>\<open>trackFiles\<close>, from \<^verbatim>\<open>loadIgnoreRules()\<close> on.\<close>

definition trackFiles :: "env \<Rightarrow> dirents \<Rightarrow> db \<Rightarrow> tstate" where
  "trackFiles e fs d =
     (case loadIgnoreRules e fs of
        None \<Rightarrow> \<lparr>t_db = d, t_out = [UncaughtException], t_thrown = True\<rparr>
      | Some rules \<Rightarrow>
          if sql_err e SelectProject then \<lparr>t_db = d, t_out = [ErrorRetrievingProject], t_thrown = False\<rparr>
          else (case selectProject e d of
            None \<Rightarrow> \<lparr>t_db = d, t_out = [NoProjectFound], t_thrown = False\<rparr>
          | Some projectId \<Rightarrow>
              (if eacces e [] then \<lparr>t_db = d, t_out = [UncaughtException], t_thrown = True\<rparr>
               else (let st = traverseDirectory e rules projectId [] fs
                                \<lparr>t_db = d, t_out = [], t_thrown = False\<rparr>
                     in (if t_thrown st then st else (st\<lparr>t_out := t_out st @ [TrackingCompleted]\<rparr>))))))"

text \<open>
  To state what the tracker achieves: the regular files below a directory, each with
  its path and content; a listing in which no name occurs twice, at any depth (what
  \<^verbatim>\<open>readdirSync\<close> returns); the File rows of a path; and the paths the rules exclude, those
  with a prefix (the path itself or a directory above it) that a rule matches.
\<close>

fun filesUnder :: "path \<Rightarrow> dirents \<Rightarrow> (path \<times> string) list"
  and filesAt :: "path \<Rightarrow> node \<Rightarrow> (path \<times> string) list" where
  "filesUnder dir [] = []"
| "filesUnder dir ((name, nd) # entries) = filesAt (dir @ [name]) nd @ filesUnder dir entries"
| "filesAt p (File content) = [(p, content)]"
| "filesAt p (Dir entries) = filesUnder p entries"
| "filesAt p Other = []"


definition fileRows :: "db \<Rightarrow> path \<Rightarrow> file_row list" where
  "fileRows d p = filter (\<lambda>r. f_path r = p) (files d)"

definition excluded :: "env \<Rightarrow> string list \<Rightarrow> path \<Rightarrow> bool" where
  "excluded e rules p =
     list_ex (\<lambda>k. someMatch e rules (path_string (take k p)) = Some True) [1..<Suc (length p)]"

text \<open>
  A file the walk of \<open>dir\<close> gets to: every test on the way from \<open>dir\<close> down to the path
  itself answers no.
\<close>

definition reached :: "env \<Rightarrow> string list \<Rightarrow> path \<Rightarrow> path \<Rightarrow> bool" where
  "reached e rules dir q =
     list_all (\<lambda>k. someMatch e rules (path_string (take k q)) = Some False)
              [Suc (length dir)..<Suc (length q)]"


section \<open>Creating a snapshot\<close>

text \<open>
  The \<^verbatim>\<open>forEach\<close> over the File rows: the content on disk, or the empty string when the
  path does not exist, goes into one \<^verbatim>\<open>snapshot_files\<close> row. A read that throws ends it
  (the flag).
\<close>

fun insertSnapshotFiles :: "env \<Rightarrow> dirents \<Rightarrow> nat \<Rightarrow> file_row list \<Rightarrow> db \<Rightarrow> db \<times> bool" where
  "insertSnapshotFiles e fs snapshotId [] d = (d, False)"
| "insertSnapshotFiles e fs snapshotId (file # rest) d =
     (case (if existsSync fs (f_path file) then readFileSync (eacces e) fs (f_path file) else Some []) of
        None \<Rightarrow> (d, True)
      | Some content \<Rightarrow>
          insertSnapshotFiles e fs snapshotId rest
            (d\<lparr>snapshot_files := snapshot_files d @
                  [\<lparr>sf_id = lastID (map sf_id (snapshot_files d)) (snapshot_files_seq d),
                    sf_snapshot = snapshotId, sf_file = f_id file, sf_content = content\<rparr>],
               snapshot_files_seq := lastID (map sf_id (snapshot_files d)) (snapshot_files_seq d)\<rparr>))"

text \<open>
  \<^verbatim>\<open>createSnapshot\<close>: \<^verbatim>\<open>trackFiles()\<close> first (taken to have finished before the
  description is typed in), then the snapshot row, then the rows of its files. The
  success line is printed when the query for the files is issued, before its callback
  runs. No transaction is opened.
\<close>

definition createSnapshot :: "env \<Rightarrow> dirents \<Rightarrow> db \<Rightarrow> string \<Rightarrow> db \<times> message list" where
  "createSnapshot e fs d0 description =
     (let st = trackFiles e fs d0; d = t_db st; out = t_out st
      in if t_thrown st then (d, out)
         else if sql_err e SelectProject then (d, out @ [ErrorRetrievingProject])
         else case selectProject e d of
           None \<Rightarrow> (d, out @ [NoProjectFound])
         | Some projectId \<Rightarrow>
             if sql_err e InsertSnapshot then (d, out @ [ErrorCreatingSnapshot])
             else
               (let snapshotId = lastID (map s_id (snapshots d)) (snapshots_seq d);
                    d1 = d\<lparr>snapshots := snapshots d @
                              [\<lparr>s_id = snapshotId, s_project = projectId,
                                s_description = description, s_created = clock e\<rparr>],
                           snapshots_seq := snapshotId\<rparr>
                in if sql_err e SelectFiles
                   then (d1, out @ [SnapshotCreated snapshotId, ErrorRetrievingFiles])
                   else case insertSnapshotFiles e fs snapshotId
                               (filter (\<lambda>f. f_project f = projectId) (files d1)) d1 of
                          (d2, thrown) \<Rightarrow>
                            (d2, out @ [SnapshotCreated snapshotId] @
                                  (if thrown then [UncaughtException] else []))))"

text \<open>
  What a snapshot stores for a path when nothing throws: the content on disk, the empty
  string when there is no such file.
\<close>

definition diskContent :: "env \<Rightarrow> dirents \<Rightarrow> path \<Rightarrow> string" where
  "diskContent e fs p = (case readFileSync (eacces e) fs p of Some c \<Rightarrow> c | None \<Rightarrow> [])"

section \<open>Comparing two snapshots\<close>

text \<open>
  A plain object used as a dictionary from strings to strings: the list of its own
  properties in insertion order (keys that are array indices, which \<^verbatim>\<open>Object.keys\<close> lists
  first, are not told apart). A read that finds no own property goes to
  \<^verbatim>\<open>Object.prototype\<close>; an assignment to \<^verbatim>\<open>__proto__\<close> runs the inherited setter, which
  ignores a string.
\<close>

type_synonym jsobj = "(string \<times> string) list"

definition objectPrototypeNames :: "string list" where
  "objectPrototypeNames =
     [''constructor'', ''__defineGetter__'', ''__defineSetter__'', ''hasOwnProperty'',
      ''__lookupGetter__'', ''__lookupSetter__'', ''isPrototypeOf'', ''propertyIsEnumerable'',
      ''toString'', ''valueOf'', ''__proto__'', ''toLocaleString'']"

definition js_get :: "jsobj \<Rightarrow> string \<Rightarrow> jsval" where
  "js_get obj k =
     (case map_of obj k of
        Some v \<Rightarrow> Str v
      | None \<Rightarrow> if k \<in> set objectPrototypeNames then Inherited k else Undefined)"

definition js_set :: "jsobj \<Rightarrow> string \<Rightarrow> string \<Rightarrow> jsobj" where
  "js_set obj k v = (if k = ''__proto__'' then obj else AList.update k v obj)"

text \<open>\<^verbatim>\<open>x || ''\<close>: the empty string and \<^verbatim>\<open>undefined\<close> are falsy.\<close>

fun or_empty :: "jsval \<Rightarrow> jsval" where
  "or_empty (Str s) = Str s"
| "or_empty Undefined = Str []"
| "or_empty (Inherited k) = Inherited k"

text \<open>\<^verbatim>\<open>{ ...files1, ...files2 }\<close> and \<^verbatim>\<open>Object.keys\<close>.\<close>

definition spread2 :: "jsobj \<Rightarrow> jsobj \<Rightarrow> jsobj" where
  "spread2 files1 files2 = fold (\<lambda>(k, v) obj. AList.update k v obj) files2 files1"

definition object_keys :: "jsobj \<Rightarrow> string list" where
  "object_keys obj = map fst obj"

text \<open>
  \<^verbatim>\<open>SELECT sf.snapshot_id, f.path, sf.content FROM snapshot_files sf INNER JOIN files f
  ON sf.file_id = f.id WHERE sf.snapshot_id IN (?, ?)\<close>; the path is the string.
\<close>

definition selectSnapshotFilesIn :: "db \<Rightarrow> nat \<Rightarrow> nat \<Rightarrow> (nat \<times> string \<times> string) list" where
  "selectSnapshotFilesIn d a b =
     concat (map (\<lambda>sf. map (\<lambda>f. (sf_snapshot sf, path_string (f_path f), sf_content sf))
                           (filter (\<lambda>f. f_id f = sf_file sf) (files d)))
                 (filter (\<lambda>sf. sf_snapshot sf = a \<or> sf_snapshot sf = b) (snapshot_files d)))"

text \<open>
  The \<^verbatim>\<open>reduce\<close> that groups the rows: one object per snapshot id, each path set to its
  content (\<^verbatim>\<open>file.content || ''\<close> is the content, a string).
\<close>

fun filesBySnapshot :: "(nat \<times> string \<times> string) list \<Rightarrow> (nat \<times> jsobj) list \<Rightarrow> (nat \<times> jsobj) list" where
  "filesBySnapshot [] acc = acc"
| "filesBySnapshot ((snapshot_id, p, content) # rows) acc =
     filesBySnapshot rows
       (case map_of acc snapshot_id of
          None \<Rightarrow> AList.update snapshot_id (js_set [] p content) acc
        | Some obj \<Rightarrow> AList.update snapshot_id (js_set obj p content) acc)"

text \<open>\<^verbatim>\<open>filesBySnapshot[snapshot] || {}\<close>.\<close>

definition filesOf :: "(nat \<times> jsobj) list \<Rightarrow> nat \<Rightarrow> jsobj" where
  "filesOf acc snapshot = (case map_of acc snapshot of None \<Rightarrow> [] | Some obj \<Rightarrow> obj)"

text \<open>
  \<^verbatim>\<open>filterFiles\<close>: the answers to the two filter prompts are strings, the empty string
  (falsy) for no filter.
\<close>

record filterOptions =
  fileType :: string
  directory :: string

definition filterFiles :: "(string \<times> jsval \<times> jsval) list \<Rightarrow> filterOptions \<Rightarrow> (string \<times> jsval \<times> jsval) list" where
  "filterFiles fls flt =
     filter (\<lambda>(p, c1, c2).
        (if fileType flt \<noteq> [] then endsWith p (fileType flt) else True) \<and>
        (if directory flt \<noteq> [] then startsWith p (directory flt) else True)) fls"

text \<open>The list handed to \<^verbatim>\<open>filterFiles\<close>: one entry per key of the two objects together.\<close>

definition comparedFiles :: "jsobj \<Rightarrow> jsobj \<Rightarrow> (string \<times> jsval \<times> jsval) list" where
  "comparedFiles files1 files2 =
     map (\<lambda>p. (p, or_empty (js_get files1 p), or_empty (js_get files2 p)))
         (object_keys (spread2 files1 files2))"


definition validateSnapshotIds :: "nat list \<Rightarrow> bool" where
  "validateSnapshotIds input = (length input = 2)"

text \<open>
  \<^verbatim>\<open>diffSnapshots\<close>, from the project query on: \<open>snapshotIds\<close> is an answer to the
  checkbox prompt (one the \<^verbatim>\<open>validate\<close> hook refuses gets the hook's message and nothing
  else; the prompt then asks again), \<open>SideBySideDiff p c1 c2\<close> the call
  \<^verbatim>\<open>displaySideBySideDiff(p, c1, c2)\<close>. A rejected promise is caught and printed.
\<close>

definition diffSnapshots :: "env \<Rightarrow> db \<Rightarrow> nat list \<Rightarrow> filterOptions \<Rightarrow> message list" where
  "diffSnapshots e d snapshotIds flt =
     (if sql_err e SelectProject then [CaughtError]
      else case selectProject e d of
        None \<Rightarrow> [ErrorFindingProject]
      | Some pid \<Rightarrow>
          if sql_err e SelectSnapshots then [CaughtError]
          else if length (selectSnapshots d pid) < 2 then [NotEnoughSnapshots]
          else if \<not> validateSnapshotIds snapshotIds then [SelectExactlyTwo]
          else (case snapshotIds of
                  [snapshot1, snapshot2] \<Rightarrow>
                    if sql_err e SelectSnapshotFiles then [CaughtError]
                    else
                      (let acc = filesBySnapshot (selectSnapshotFilesIn d snapshot1 snapshot2) [];
                           filteredFiles =
                             filterFiles (comparedFiles (filesOf acc snapshot1) (filesOf acc snapshot2)) flt
                       in if length filteredFiles = 0 then [NoMatchingFiles]
                          else DiffBetween snapshot1 snapshot2 #
                               map (\<lambda>(p, c1, c2). SideBySideDiff p c1 c2) filteredFiles)
                | _ \<Rightarrow> [SelectExactlyTwo]))"

section \<open>Concrete projects\<close>

text \<open>
  An environment in which no statement fails and every path may be accessed; the hash
  of a content is written \<open>#\<close> followed by the content.
\<close>

definition env_ok :: env where
  "env_ok = \<lparr>sql_err = (\<lambda>st. False), eacces = (\<lambda>p. False), projectName = ''proj'', clock = 7,
              sha256 = (\<lambda>c. CHR ''#'' # c), regexp_other = (\<lambda>src s. None)\<rparr>"

text \<open>A project with no file and no snapshot yet.\<close>

definition db_new :: db where
  "db_new = \<lparr>projects = [\<lparr>p_id = 1, p_name = ''proj''\<rparr>], files = [], files_seq = 0,
              snapshots = [], snapshots_seq = 0, snapshot_files = [], snapshot_files_seq = 0\<rparr>"

text \<open>A project whose snapshot 1 holds the file \<open>a\<close> with content \<open>x\<close>.\<close>

definition db_one :: db where
  "db_one = \<lparr>projects = [\<lparr>p_id = 1, p_name = ''proj''\<rparr>],
              files = [\<lparr>f_id = 1, f_project = 1, f_path = [''a''], f_hash = ''#x'', f_modified = 0\<rparr>],
              files_seq = 1,
              snapshots = [\<lparr>s_id = 1, s_project = 1, s_description = ''first'', s_created = 0\<rparr>],
              snapshots_seq = 1,
              snapshot_files = [\<lparr>sf_id = 1, sf_snapshot = 1, sf_file = 1, sf_content = ''x''\<rparr>],
              snapshot_files_seq = 1\<rparr>"

text \<open>A project that tracks no file, with one snapshot, which is empty.\<close>

definition db_empty_snapshot :: db where
  "db_empty_snapshot =
     \<lparr>projects = [\<lparr>p_id = 1, p_name = ''proj''\<rparr>], files = [], files_seq = 0,
      snapshots = [\<lparr>s_id = 1, s_project = 1, s_description = ''nothing'', s_created = 0\<rparr>],
      snapshots_seq = 1, snapshot_files = [], snapshot_files_seq = 0\<rparr>"

text \<open>The same environment, but the statement that deletes the snapshot row fails.\<close>

definition env_delete_fails :: env where
  "env_delete_fails = env_ok\<lparr>sql_err := (\<lambda>st. st = DeleteSnapshot)\<rparr>"

text \<open>The same environment, but the query for the File rows fails.\<close>

definition env_files_query_fails :: env where
  "env_files_query_fails = env_ok\<lparr>sql_err := (\<lambda>st. st = SelectFiles)\<rparr>"

text \<open>A working directory with the single file \<open>a\<close>.\<close>

definition fs_a :: dirents where
  "fs_a = [(''a'', File ''x'')]"

text \<open>
  A working directory right after \<^verbatim>\<open>svc init\<close>: the \<^verbatim>\<open>.svcignore\<close> that \<^verbatim>\<open>initProject\<close>
  writes, two files at the root and an installed package.
\<close>

definition fs_project :: dirents where
  "fs_project =
     [(''.svcignore'', File ''node_modules/\<newline>.git/\<newline>*.log\<newline>*.tmp\<newline>*.db''),
      (''a.txt'', File ''1''),
      (''debug.log'', File ''zzz''),
      (''node_modules'', Dir [(''x.js'', File ''x'')])]"

text \<open>The rules \<^verbatim>\<open>initProject\<close> writes.\<close>

definition default_rules :: "string list" where
  "default_rules = [''node_modules/'', ''.git/'', ''*.log'', ''*.tmp'', ''*.db'']"

text \<open>
  A project with two snapshots: the first holds \<open>a.txt\<close>, the second \<open>a.txt\<close> with a
  new content and a file named \<open>constructor\<close>.
\<close>

definition db_two :: db where
  "db_two =
     \<lparr>projects = [\<lparr>p_id = 1, p_name = ''proj''\<rparr>],
      files = [\<lparr>f_id = 1, f_project = 1, f_path = [''a.txt''], f_hash = ''#3'', f_modified = 1\<rparr>,
               \<lparr>f_id = 2, f_project = 1, f_path = [''constructor''], f_hash = ''#k'', f_modified = 1\<rparr>],
      files_seq = 2,
      snapshots = [\<lparr>s_id = 1, s_project = 1, s_description = ''first'', s_created = 0\<rparr>,
                   \<lparr>s_id = 2, s_project = 1, s_description = ''second'', s_created = 1\<rparr>],
      snapshots_seq = 2,
      snapshot_files = [\<lparr>sf_id = 1, sf_snapshot = 1, sf_file = 1, sf_content = ''1''\<rparr>,
                        \<lparr>sf_id = 2, sf_snapshot = 2, sf_file = 1, sf_content = ''3''\<rparr>,
                        \<lparr>sf_id = 3, sf_snapshot = 2, sf_file = 2, sf_content = ''k''\<rparr>],
      snapshot_files_seq = 3\<rparr>"

definition no_filter :: filterOptions where
  "no_filter = \<lparr>fileType = [], directory = []\<rparr>"

section \<open>Facts about the working directory\<close>

lemma fileAt_Nil [simp]: "fileAt es [] = None"
  by (simp add: fileAt_def)

lemma fileAt_Cons:
  "fileAt es (n # ns) = (case map_of es n of None \<Rightarrow> None
      | Some (Dir sub) \<Rightarrow> fileAt sub ns
      | Some (File c) \<Rightarrow> (if ns = [] then Some c else None)
      | Some Other \<Rightarrow> None)"
  by (cases ns) (simp_all add: fileAt_def split: option.splits node.splits)

lemma fileAt_empty [simp]: "fileAt [] p = None"
  by (cases p) (simp_all add: fileAt_Cons)




section \<open>Facts about revert and selective restore\<close>















text \<open>
  A snapshot records each path once when the paths of the File rows are unique, as the
  schema has it, and the snapshot has at most one row per File row, which is how
  \<open>createSnapshot\<close> fills a snapshot.
\<close>

lemma selectSnapshotFiles_distinct:
  assumes paths: "distinct (map f_path (files d))"
    and one: "distinct (map sf_file (filter (\<lambda>sf. sf_snapshot sf = s) (snapshot_files d)))"
  shows "distinct (map fst (selectSnapshotFiles d s))"
proof -
  let ?join = "\<lambda>sf. map (\<lambda>f. (f_path f, sf_content sf)) (filter (\<lambda>f. f_id f = sf_file sf) (files d))"
  have inj: "inj_on f_path (set (files d))" using paths by (simp add: distinct_map)
  have piece: "distinct (map fst (?join sf))" for sf :: sf_row
  proof -
    have e: "map fst (?join sf) = map f_path (filter (\<lambda>f. f_id f = sf_file sf) (files d))"
      by (simp add: comp_def)
    show ?thesis unfolding e using paths by (rule distinct_map_filter)
  qed
  have "distinct (map sf_file sfs) \<Longrightarrow> distinct (map fst (concat (map ?join sfs)))"
    for sfs :: "sf_row list"
  proof (induction sfs)
    case Nil
    then show ?case by simp
  next
    case (Cons sf sfs)
    have dj: "set (map fst (?join sf)) \<inter> set (map fst (concat (map ?join sfs))) = {}"
    proof (rule ccontr)
      assume "set (map fst (?join sf)) \<inter> set (map fst (concat (map ?join sfs))) \<noteq> {}"
      then obtain f f' sf' where f: "f \<in> set (files d)" "f_id f = sf_file sf"
        and f': "f' \<in> set (files d)" "f_id f' = sf_file sf'" "sf' \<in> set sfs"
        and eq: "f_path f = f_path f'"
        by (auto simp: image_iff) metis
      from inj f(1) f'(1) eq have "f = f'" by (simp add: inj_on_def)
      with f(2) f'(2) have "sf_file sf = sf_file sf'" by simp
      with f'(3) have "sf_file sf \<in> sf_file ` set sfs" by (metis image_eqI)
      with Cons.prems show False by simp
    qed
    have sp: "map fst (concat (map ?join (sf # sfs))) =
              map fst (?join sf) @ map fst (concat (map ?join sfs))" by simp
    from Cons have rest: "distinct (map fst (concat (map ?join sfs)))" by simp
    show ?case unfolding sp distinct_append using piece[of sf] rest dj by blast
  qed
  from this[OF one] show ?thesis by (simp add: selectSnapshotFiles_def)
qed


lemmas ex_defs = env_ok_def db_one_def db_new_def db_empty_snapshot_def selectProject_def
  selectSnapshots_def selectSnapshotFiles_def



text \<open>
  Claim C10. For a snapshot of the project that has no \<open>snapshot_files\<close> row,
  \<open>revertToSnapshot\<close> leaves the directory as it is, restores no file, and prints only
  that no files were found in the snapshot.
\<close>

theorem revertToSnapshot_empty_snapshot:
  assumes "\<not> sql_err e SelectProject" and "selectProject e d = Some pid"
    and "\<not> sql_err e SelectSnapshots" and "s \<in> s_id ` set (selectSnapshots d pid)"
    and "\<forall>sf \<in> set (snapshot_files d). sf_snapshot sf \<noteq> s"
  shows "revertToSnapshot e d fs s = (fs, [NoFilesInSnapshot])"
proof -
  from assms(5) have "filter (\<lambda>sf. sf_snapshot sf = s) (snapshot_files d) = []"
    by (simp add: filter_empty_conv)
  then have "selectSnapshotFiles d s = []" by (simp add: selectSnapshotFiles_def)
  moreover from assms(4) have "selectSnapshots d pid \<noteq> []" by auto
  ultimately show ?thesis using assms(1-3) by (simp add: revertToSnapshot_def)
qed

text \<open>The hypotheses hold for the empty snapshot of \<open>db_empty_snapshot\<close>.\<close>

theorem revertToSnapshot_empty_snapshot_witness:
  "\<not> sql_err env_ok SelectProject \<and> selectProject env_ok db_empty_snapshot = Some 1 \<and>
   \<not> sql_err env_ok SelectSnapshots \<and> 1 \<in> s_id ` set (selectSnapshots db_empty_snapshot 1) \<and>
   snapshot_files db_empty_snapshot = [] \<and>
   revertToSnapshot env_ok db_empty_snapshot [(''a'', File ''y'')] 1 = ([(''a'', File ''y'')], [NoFilesInSnapshot])"
proof -
  have h: "\<not> sql_err env_ok SelectProject" "selectProject env_ok db_empty_snapshot = Some 1"
    "\<not> sql_err env_ok SelectSnapshots" "1 \<in> s_id ` set (selectSnapshots db_empty_snapshot 1)"
    "snapshot_files db_empty_snapshot = []"
    by (simp_all add: ex_defs)
  from h(5) have "\<forall>sf \<in> set (snapshot_files db_empty_snapshot). sf_snapshot sf \<noteq> 1" by simp
  from revertToSnapshot_empty_snapshot[OF h(1-4) this] h show ?thesis by simp
qed




section \<open>Facts about deleting a snapshot\<close>

lemma deleteStatements_cases:
  "deleteStatements e d s = (d', out) \<Longrightarrow>
     (out = [ErrorDeletingSnapshotFiles] \<and> d' = d) \<or>
     (out = [ErrorDeletingSnapshot] \<and>
        d' = d\<lparr>snapshot_files := filter (\<lambda>sf. sf_snapshot sf \<noteq> s) (snapshot_files d)\<rparr>) \<or>
     (out = [SnapshotDeleted s] \<and>
        d' = d\<lparr>snapshot_files := filter (\<lambda>sf. sf_snapshot sf \<noteq> s) (snapshot_files d),
               snapshots := filter (\<lambda>r. s_id r \<noteq> s) (snapshots d)\<rparr>)"
  by (auto simp: deleteStatements_def Let_def split: if_splits)

lemma deleteSnapshot_cases:
  "deleteSnapshot e d s = (d', out) \<Longrightarrow>
     (d' = d \<and> out \<noteq> [ErrorDeletingSnapshot] \<and> out \<noteq> [SnapshotDeleted s]) \<or> deleteStatements e d s = (d', out)"
  by (auto simp: deleteSnapshot_def split: if_splits option.splits)

lemma deleteSnapshot_confirm_cases:
  "deleteSnapshot_confirm e d s c = (d', out) \<Longrightarrow>
     (d' = d \<and> out \<noteq> [ErrorDeletingSnapshot] \<and> out \<noteq> [SnapshotDeleted s]) \<or> deleteStatements e d s = (d', out)"
  by (auto simp: deleteSnapshot_confirm_def split: if_splits option.splits)

lemma deleteStatements_effect:
  assumes "deleteStatements e d s = (d', out) \<or> (d' = d \<and> out \<noteq> [ErrorDeletingSnapshot] \<and> out \<noteq> [SnapshotDeleted s])"
  shows "filter (\<lambda>sf. sf_snapshot sf \<noteq> s) (snapshot_files d') = filter (\<lambda>sf. sf_snapshot sf \<noteq> s) (snapshot_files d) \<and>
         filter (\<lambda>r. s_id r \<noteq> s) (snapshots d') = filter (\<lambda>r. s_id r \<noteq> s) (snapshots d) \<and>
         files d' = files d \<and> projects d' = projects d \<and>
         (out = [SnapshotDeleted s] \<longrightarrow>
            (\<forall>sf \<in> set (snapshot_files d'). sf_snapshot sf \<noteq> s) \<and>
            (\<forall>r \<in> set (snapshots d'). s_id r \<noteq> s) \<and>
            (\<forall>pid. s \<notin> s_id ` set (selectSnapshots d' pid))) \<and>
         (out = [ErrorDeletingSnapshot] \<longrightarrow>
            (\<forall>sf \<in> set (snapshot_files d'). sf_snapshot sf \<noteq> s) \<and> snapshots d' = snapshots d) \<and>
         (out \<noteq> [SnapshotDeleted s] \<and> out \<noteq> [ErrorDeletingSnapshot] \<longrightarrow> d' = d)"
  using assms
proof
  assume "deleteStatements e d s = (d', out)"
  from deleteStatements_cases[OF this] show ?thesis
    by (auto simp: selectSnapshots_def)
next
  assume "d' = d \<and> out \<noteq> [ErrorDeletingSnapshot] \<and> out \<noteq> [SnapshotDeleted s]"
  then show ?thesis by simp
qed

text \<open>
  Claim C5, as the code has it. Both \<open>deleteSnapshot\<close> commands issue two statements,
  the second in the callback of the first and outside any transaction. Whatever they
  return, the rows of every other snapshot in \<open>snapshot_files\<close> and in \<open>snapshots\<close>, and
  the \<open>files\<close> and \<open>projects\<close> tables, are unchanged. When both statements succeed,
  no \<open>snapshot_files\<close> row of \<open>s\<close> and no \<open>snapshots\<close> row of \<open>s\<close> is left, and \<open>s\<close>
  is in no project's list of snapshots. When the second statement fails, the
  \<open>snapshot_files\<close> rows of \<open>s\<close> are gone and the \<open>snapshots\<close> table is as it was. In
  every other case the store is unchanged.
\<close>

theorem deleteSnapshot_effect:
  assumes "deleteSnapshot e d s = (d', out) \<or> deleteSnapshot_confirm e d s confirm = (d', out)"
  shows "filter (\<lambda>sf. sf_snapshot sf \<noteq> s) (snapshot_files d') = filter (\<lambda>sf. sf_snapshot sf \<noteq> s) (snapshot_files d) \<and>
         filter (\<lambda>r. s_id r \<noteq> s) (snapshots d') = filter (\<lambda>r. s_id r \<noteq> s) (snapshots d) \<and>
         files d' = files d \<and> projects d' = projects d \<and>
         (out = [SnapshotDeleted s] \<longrightarrow>
            (\<forall>sf \<in> set (snapshot_files d'). sf_snapshot sf \<noteq> s) \<and>
            (\<forall>r \<in> set (snapshots d'). s_id r \<noteq> s) \<and>
            (\<forall>pid. s \<notin> s_id ` set (selectSnapshots d' pid))) \<and>
         (out = [ErrorDeletingSnapshot] \<longrightarrow>
            (\<forall>sf \<in> set (snapshot_files d'). sf_snapshot sf \<noteq> s) \<and> snapshots d' = snapshots d) \<and>
         (out \<noteq> [SnapshotDeleted s] \<and> out \<noteq> [ErrorDeletingSnapshot] \<longrightarrow> d' = d)"
proof -
  from assms deleteSnapshot_cases deleteSnapshot_confirm_cases
  have "deleteStatements e d s = (d', out) \<or> (d' = d \<and> out \<noteq> [ErrorDeletingSnapshot] \<and> out \<noteq> [SnapshotDeleted s])"
    by blast
  then show ?thesis by (rule deleteStatements_effect)
qed


text \<open>Both commands delete snapshot 1 of \<open>db_one\<close> when no statement fails.\<close>

theorem deleteSnapshot_effect_witness:
  "deleteSnapshot env_ok db_one 1 = (db_one\<lparr>snapshot_files := [], snapshots := []\<rparr>, [SnapshotDeleted 1]) \<and>
   deleteSnapshot_confirm env_ok db_one 1 True = (db_one\<lparr>snapshot_files := [], snapshots := []\<rparr>, [SnapshotDeleted 1]) \<and>
   selectSnapshots (db_one\<lparr>snapshot_files := [], snapshots := []\<rparr>) 1 = []"
proof -
  have 1: "deleteSnapshot env_ok db_one 1 = (db_one\<lparr>snapshot_files := [], snapshots := []\<rparr>, [SnapshotDeleted 1])"
    by (simp add: deleteSnapshot_def deleteStatements_def ex_defs)
  have 2: "deleteSnapshot_confirm env_ok db_one 1 True = (db_one\<lparr>snapshot_files := [], snapshots := []\<rparr>, [SnapshotDeleted 1])"
    by (simp add: deleteSnapshot_confirm_def deleteStatements_def ex_defs)
  from deleteSnapshot_effect[OF disjI1, OF 1] 1 2 show ?thesis by (simp add: selectSnapshots_def)
qed

text \<open>
  Claim C5 as stated fails: the two deletes are not one atomic unit. When the second
  statement fails, the rows of snapshot 1 in \<open>snapshot_files\<close> are gone, its row in
  \<open>snapshots\<close> is still there, and the snapshot is still listed.
\<close>

theorem deleteSnapshot_counterexample:
  "deleteSnapshot env_delete_fails db_one 1 = (db_one\<lparr>snapshot_files := []\<rparr>, [ErrorDeletingSnapshot]) \<and>
   snapshots (db_one\<lparr>snapshot_files := []\<rparr>) = snapshots db_one \<and>
   snapshots db_one \<noteq> [] \<and> snapshot_files db_one \<noteq> [] \<and>
   map s_id (selectSnapshots (db_one\<lparr>snapshot_files := []\<rparr>) 1) = [1]"
  by (simp add: deleteSnapshot_def deleteStatements_def env_delete_fails_def ex_defs)


section \<open>Facts about creating a snapshot\<close>


lemma insertSnapshotFiles_tables:
  "insertSnapshotFiles e fs sid fls d = (d', thrown) \<Longrightarrow>
     projects d' = projects d \<and> files d' = files d \<and> snapshots d' = snapshots d \<and>
     files_seq d' = files_seq d \<and> snapshots_seq d' = snapshots_seq d"
  by (induction fls arbitrary: d) (auto split: option.splits if_splits)

lemma insertSnapshotFiles_rows:
  "insertSnapshotFiles e fs sid fls d = (d', thrown) \<Longrightarrow>
     \<exists>rows. snapshot_files d' = snapshot_files d @ rows \<and>
       (\<forall>r \<in> set rows. sf_snapshot r = sid \<and> sf_file r \<in> f_id ` set fls) \<and>
       (\<not> thrown \<longrightarrow>
          map (\<lambda>r. (sf_snapshot r, sf_file r, sf_content r)) rows =
          map (\<lambda>f. (sid, f_id f, diskContent e fs (f_path f))) fls) \<and>
       (thrown \<longrightarrow> length rows < length fls)"
proof (induction fls arbitrary: d)
  case Nil
  then show ?case by simp
next
  case (Cons f fls)
  show ?case
  proof (cases "if existsSync fs (f_path f) then readFileSync (eacces e) fs (f_path f) else Some []")
    case None
    with Cons.prems show ?thesis by simp
  next
    case (Some c)
    let ?row = "\<lparr>sf_id = lastID (map sf_id (snapshot_files d)) (snapshot_files_seq d),
                    sf_snapshot = sid, sf_file = f_id f, sf_content = c\<rparr>"
    let ?d1 = "d\<lparr>snapshot_files := snapshot_files d @ [?row],
               snapshot_files_seq := lastID (map sf_id (snapshot_files d)) (snapshot_files_seq d)\<rparr>"
    from Cons.prems Some have "insertSnapshotFiles e fs sid fls ?d1 = (d', thrown)" by simp
    from Cons.IH[OF this] obtain rows where
      r: "snapshot_files d' = snapshot_files ?d1 @ rows"
         "\<forall>r \<in> set rows. sf_snapshot r = sid \<and> sf_file r \<in> f_id ` set fls"
         "\<not> thrown \<longrightarrow> map (\<lambda>r. (sf_snapshot r, sf_file r, sf_content r)) rows =
            map (\<lambda>f. (sid, f_id f, diskContent e fs (f_path f))) fls"
         "thrown \<longrightarrow> length rows < length fls" by blast
    from Some have c: "c = diskContent e fs (f_path f)"
      by (auto simp: diskContent_def existsSync_def readFileSync_def split: if_splits option.splits)
    show ?thesis
      by (rule exI[of _ "?row # rows"]) (use r c in auto)
  qed
qed

text \<open>
  Claim C1, as the code has it. After \<open>trackFiles\<close> has run without an exception and
  the project has been found, \<open>createSnapshot\<close> inserts the snapshot row and then, in the
  callback of a later query and outside any transaction, one row per File row of the
  project. When the insert of the snapshot row fails, the store is left as the tracker
  left it. When it succeeds, the new snapshot row is in the store whatever comes next:
  with no \<open>snapshot_files\<close> row at all when the query for the File rows fails (the line
  of success has been printed by then); with exactly one row per File row of the project,
  in order, holding the content on disk or the empty string, when nothing throws; and
  with fewer rows than File rows when a read throws.
\<close>

theorem createSnapshot_effect:
  assumes t: "trackFiles e fs d0 = st" "\<not> t_thrown st"
    and p: "\<not> sql_err e SelectProject" "selectProject e (t_db st) = Some pid"
    and c: "createSnapshot e fs d0 description = (d', out)"
    and sid: "sid = lastID (map s_id (snapshots (t_db st))) (snapshots_seq (t_db st))"
  shows "(sql_err e InsertSnapshot \<longrightarrow> d' = t_db st \<and> out = t_out st @ [ErrorCreatingSnapshot]) \<and>
         (\<not> sql_err e InsertSnapshot \<longrightarrow>
            snapshots d' = snapshots (t_db st) @
              [\<lparr>s_id = sid, s_project = pid, s_description = description, s_created = clock e\<rparr>] \<and>
            files d' = files (t_db st) \<and>
            (sql_err e SelectFiles \<longrightarrow>
               snapshot_files d' = snapshot_files (t_db st) \<and>
               out = t_out st @ [SnapshotCreated sid, ErrorRetrievingFiles]) \<and>
            (\<not> sql_err e SelectFiles \<longrightarrow>
               (\<exists>rows. snapshot_files d' = snapshot_files (t_db st) @ rows \<and>
                  (out = t_out st @ [SnapshotCreated sid] \<and>
                     map (\<lambda>r. (sf_snapshot r, sf_file r, sf_content r)) rows =
                     map (\<lambda>f. (sid, f_id f, diskContent e fs (f_path f)))
                         (filter (\<lambda>f. f_project f = pid) (files (t_db st))) \<or>
                   out = t_out st @ [SnapshotCreated sid, UncaughtException] \<and>
                     length rows < length (filter (\<lambda>f. f_project f = pid) (files (t_db st)))))))"
proof (cases "sql_err e InsertSnapshot")
  case True
  with t p c show ?thesis by (simp add: createSnapshot_def Let_def)
next
  case ins: False
  let ?d = "t_db st"
  let ?d1 = "?d\<lparr>snapshots := snapshots ?d @
               [\<lparr>s_id = sid, s_project = pid, s_description = description, s_created = clock e\<rparr>],
             snapshots_seq := sid\<rparr>"
  show ?thesis
  proof (cases "sql_err e SelectFiles")
    case True
    with t p c ins sid have "d' = ?d1" "out = t_out st @ [SnapshotCreated sid, ErrorRetrievingFiles]"
      by (simp_all add: createSnapshot_def Let_def)
    with True ins show ?thesis by simp
  next
    case sel: False
    obtain d2 thrown where i: "insertSnapshotFiles e fs sid (filter (\<lambda>f. f_project f = pid) (files ?d1)) ?d1 = (d2, thrown)"
      by (cases "insertSnapshotFiles e fs sid (filter (\<lambda>f. f_project f = pid) (files ?d1)) ?d1")
    with t p c ins sel sid have r: "d' = d2"
      "out = t_out st @ [SnapshotCreated sid] @ (if thrown then [UncaughtException] else [])"
      by (simp_all add: createSnapshot_def Let_def)
    from insertSnapshotFiles_tables[OF i] have tb: "files d2 = files ?d" "snapshots d2 = snapshots ?d1" by simp_all
    from insertSnapshotFiles_rows[OF i] obtain rows where
      rows: "snapshot_files d2 = snapshot_files ?d1 @ rows"
        "\<not> thrown \<longrightarrow> map (\<lambda>r. (sf_snapshot r, sf_file r, sf_content r)) rows =
          map (\<lambda>f. (sid, f_id f, diskContent e fs (f_path f))) (filter (\<lambda>f. f_project f = pid) (files ?d1))"
        "thrown \<longrightarrow> length rows < length (filter (\<lambda>f. f_project f = pid) (files ?d1))" by blast
    show ?thesis using ins sel r tb rows by (cases thrown) auto
  qed
qed


lemmas track_defs = trackFiles_def loadIgnoreRules_def existsSync_def readFileSync_def
  upsertFile_def lastID_def regexpTest_def calculateFileHash_def

text \<open>
  Claim C1 as stated fails: the rows are not inserted as one atomic unit. When the query
  for the File rows fails, the snapshot row has been inserted, the project tracks the
  file \<open>a\<close>, and no \<open>snapshot_files\<close> row exists.
\<close>

theorem createSnapshot_counterexample:
  "createSnapshot env_files_query_fails fs_a db_new ''first'' =
     (db_new\<lparr>files := [\<lparr>f_id = 1, f_project = 1, f_path = [''a''], f_hash = ''#x'', f_modified = 7\<rparr>],
            files_seq := 1,
            snapshots := [\<lparr>s_id = 1, s_project = 1, s_description = ''first'', s_created = 7\<rparr>],
            snapshots_seq := 1\<rparr>,
      [TrackingCompleted, SnapshotCreated 1, ErrorRetrievingFiles]) \<and>
   snapshot_files db_new = []"
proof -
  have "trackFiles env_files_query_fails fs_a db_new =
     \<lparr>t_db = db_new\<lparr>files := [\<lparr>f_id = 1, f_project = 1, f_path = [''a''], f_hash = ''#x'', f_modified = 7\<rparr>],
                     files_seq := 1\<rparr>,
      t_out = [TrackingCompleted], t_thrown = False\<rparr>"
    by (simp add: track_defs env_files_query_fails_def ex_defs fs_a_def)
  then show ?thesis
    by (simp add: createSnapshot_def Let_def env_files_query_fails_def env_ok_def selectProject_def db_new_def lastID_def)
qed

text \<open>With no failing step, the first snapshot of a project with the single file \<open>a\<close>.\<close>

theorem createSnapshot_effect_witness:
  "\<not> t_thrown (trackFiles env_ok fs_a db_new) \<and> \<not> sql_err env_ok SelectProject \<and>
   selectProject env_ok (t_db (trackFiles env_ok fs_a db_new)) = Some 1 \<and>
   \<not> sql_err env_ok InsertSnapshot \<and> \<not> sql_err env_ok SelectFiles \<and>
   createSnapshot env_ok fs_a db_new ''first'' =
     (db_new\<lparr>files := [\<lparr>f_id = 1, f_project = 1, f_path = [''a''], f_hash = ''#x'', f_modified = 7\<rparr>],
            files_seq := 1,
            snapshots := [\<lparr>s_id = 1, s_project = 1, s_description = ''first'', s_created = 7\<rparr>],
            snapshots_seq := 1,
            snapshot_files := [\<lparr>sf_id = 1, sf_snapshot = 1, sf_file = 1, sf_content = ''x''\<rparr>],
            snapshot_files_seq := 1\<rparr>,
      [TrackingCompleted, SnapshotCreated 1])"
proof -
  have t: "trackFiles env_ok fs_a db_new =
     \<lparr>t_db = db_new\<lparr>files := [\<lparr>f_id = 1, f_project = 1, f_path = [''a''], f_hash = ''#x'', f_modified = 7\<rparr>],
                     files_seq := 1\<rparr>,
      t_out = [TrackingCompleted], t_thrown = False\<rparr>"
    by (simp add: track_defs ex_defs fs_a_def)
  have c: "createSnapshot env_ok fs_a db_new ''first'' =
     (db_new\<lparr>files := [\<lparr>f_id = 1, f_project = 1, f_path = [''a''], f_hash = ''#x'', f_modified = 7\<rparr>],
            files_seq := 1,
            snapshots := [\<lparr>s_id = 1, s_project = 1, s_description = ''first'', s_created = 7\<rparr>],
            snapshots_seq := 1,
            snapshot_files := [\<lparr>sf_id = 1, sf_snapshot = 1, sf_file = 1, sf_content = ''x''\<rparr>],
            snapshot_files_seq := 1\<rparr>,
      [TrackingCompleted, SnapshotCreated 1])"
    using t by (simp add: createSnapshot_def Let_def env_ok_def selectProject_def db_new_def lastID_def
                  existsSync_def readFileSync_def fs_a_def)
  have h: "\<not> t_thrown (trackFiles env_ok fs_a db_new)" "\<not> sql_err env_ok SelectProject"
    "selectProject env_ok (t_db (trackFiles env_ok fs_a db_new)) = Some 1"
    "\<not> sql_err env_ok InsertSnapshot" "\<not> sql_err env_ok SelectFiles"
    using t by (simp_all add: env_ok_def selectProject_def db_new_def)
  from createSnapshot_effect[OF refl h(1,2,3) c refl] h c show ?thesis by simp
qed


section \<open>Facts about the tracker\<close>

lemma filter_map_update_other:
  "q \<noteq> p \<Longrightarrow>
   filter (\<lambda>r. f_path r = q) (map (\<lambda>r. if f_path r = p then r\<lparr>f_hash := h, f_modified := t\<rparr> else r) rs) =
   filter (\<lambda>r. f_path r = q) rs"
  by (induction rs) auto

lemma upsertFile_other_rows:
  "q \<noteq> p \<Longrightarrow> fileRows (upsertFile e pid p h d) q = fileRows d q"
  by (simp add: fileRows_def upsertFile_def filter_map_update_other split: option.splits)

lemma filesUnder_prefix:
  "(q, c) \<in> set (filesUnder dir es) \<Longrightarrow> \<exists>n rest. n \<in> fst ` set es \<and> q = dir @ n # rest"
  "(q, c) \<in> set (filesAt p nd) \<Longrightarrow> \<exists>rest. q = p @ rest"
proof (induction dir es and p nd arbitrary: q c and q c rule: filesUnder_filesAt.induct)
  case (1 dir)
  then show ?case by simp
next
  case (2 dir name nd entries)
  from "2.prems" consider "(q, c) \<in> set (filesAt (dir @ [name]) nd)" | "(q, c) \<in> set (filesUnder dir entries)"
    by auto
  then show ?case
  proof cases
    case 1
    from "2.IH"(1)[OF this] show ?thesis by auto
  next
    case 2
    from "2.IH"(2)[OF this] show ?thesis by auto
  qed
next
  case (3 p content)
  then show ?case by simp
next
  case (4 p entries)
  from "4.IH"[of q c] "4.prems" show ?case by auto
next
  case (5 p)
  then show ?case by simp
qed


lemma visitEntry_unfold:
  "visitEntry e rules pid dir name nd st =
     (case someMatch e rules (path_string (dir @ [name])) of
        None \<Rightarrow> st\<lparr>t_out := t_out st @ [UncaughtException], t_thrown := True\<rparr>
      | Some True \<Rightarrow> st\<lparr>t_out := t_out st @ [Ignored (dir @ [name])]\<rparr>
      | Some False \<Rightarrow>
          (case nd of
             File content \<Rightarrow>
               (case calculateFileHash e (dir @ [name]) nd of
                  None \<Rightarrow> st\<lparr>t_out := t_out st @ [UncaughtException], t_thrown := True\<rparr>
                | Some hash \<Rightarrow> st\<lparr>t_db := upsertFile e pid (dir @ [name]) hash (t_db st)\<rparr>)
           | Dir entries \<Rightarrow>
               (if eacces e (dir @ [name])
                then st\<lparr>t_out := t_out st @ [UncaughtException], t_thrown := True\<rparr>
                else traverseDirectory e rules pid (dir @ [name]) entries st)
           | Other \<Rightarrow> st))"
  by simp

declare visitEntry.simps [simp del]

lemma reached_iff:
  "reached e rules dir q \<longleftrightarrow>
     (\<forall>k. length dir < k \<and> k \<le> length q \<longrightarrow> someMatch e rules (path_string (take k q)) = Some False)"
proof -
  have *: "k \<in> {Suc (length dir)..<Suc (length q)} \<longleftrightarrow> length dir < k \<and> k \<le> length q" for k
    by auto
  show ?thesis
    by (simp only: reached_def list_all_iff set_upt Ball_def *)
qed

text \<open>
  A walk changes the File rows of a path only if the path is a regular file it reaches.
\<close>

lemma traverse_frame:
  "fileRows (t_db (traverseDirectory e rules pid dir es st)) q \<noteq> fileRows (t_db st) q \<Longrightarrow>
     q \<in> fst ` set (filesUnder dir es) \<and> reached e rules dir q"
  "fileRows (t_db (visitEntry e rules pid dir name nd st)) q \<noteq> fileRows (t_db st) q \<Longrightarrow>
     q \<in> fst ` set (filesAt (dir @ [name]) nd) \<and> reached e rules dir q"
proof (induction e rules pid dir es st and e rules pid dir name nd st
        arbitrary: q and q rule: traverseDirectory_visitEntry.induct)
  case (1 e rules projectId dir st)
  then show ?case by simp
next
  case (2 e rules projectId dir name nd entries st)
  let ?st1 = "visitEntry e rules projectId dir name nd st"
  show ?case
  proof (cases "fileRows (t_db ?st1) q = fileRows (t_db st) q")
    case True
    with "2.prems" have th: "\<not> t_thrown ?st1"
      and ch: "fileRows (t_db (traverseDirectory e rules projectId dir entries ?st1)) q \<noteq> fileRows (t_db ?st1) q"
      by (auto simp: Let_def split: if_splits)
    from "2.IH"(2)[OF refl th ch] show ?thesis by auto
  next
    case False
    from "2.IH"(1)[OF False] show ?thesis by auto
  qed
next
  case (3 e rules projectId dir name nd st)
  from "3.prems" have m: "someMatch e rules (path_string (dir @ [name])) = Some False"
    by (auto simp: visitEntry_unfold split: option.splits bool.splits)
  have r1: "reached e rules dir (dir @ [name])"
    unfolding reached_iff
  proof (intro allI impI)
    fix k assume "length dir < k \<and> k \<le> length (dir @ [name])"
    then have "k = Suc (length dir)" by simp
    with m show "someMatch e rules (path_string (take k (dir @ [name]))) = Some False" by simp
  qed
  show ?case
  proof (cases nd)
    case (File content)
    with "3.prems" m have "fileRows (upsertFile e projectId (dir @ [name]) (sha256 e content) (t_db st)) q
         \<noteq> fileRows (t_db st) q"
      by (auto simp: visitEntry_unfold calculateFileHash_def split: if_splits)
    with upsertFile_other_rows[of q "dir @ [name]"] have "q = dir @ [name]" by blast
    with File r1 show ?thesis by simp
  next
    case (Dir entries)
    with "3.prems" m have na: "\<not> eacces e (dir @ [name])"
      and ch: "fileRows (t_db (traverseDirectory e rules projectId (dir @ [name]) entries st)) q \<noteq> fileRows (t_db st) q"
      by (auto simp: visitEntry_unfold split: if_splits)
    from "3.IH"[OF m _ Dir na ch] have i: "q \<in> fst ` set (filesUnder (dir @ [name]) entries)"
      "reached e rules (dir @ [name]) q" by auto
    from i(1) filesUnder_prefix(1) obtain n rest where q: "q = (dir @ [name]) @ n # rest" by fastforce
    have "reached e rules dir q"
      unfolding reached_iff
    proof (intro allI impI)
      fix k assume k: "length dir < k \<and> k \<le> length q"
      show "someMatch e rules (path_string (take k q)) = Some False"
      proof (cases "k = Suc (length dir)")
        case True
        with q have "take k q = dir @ [name]" by simp
        with m show ?thesis by simp
      next
        case False
        with k have "length (dir @ [name]) < k \<and> k \<le> length q" by simp
        with i(2) show ?thesis by (simp add: reached_iff)
      qed
    qed
    with i(1) Dir show ?thesis by simp
  next
    case Other
    with "3.prems" m show ?thesis by (simp add: visitEntry_unfold)
  qed
qed






lemma trackFiles_frame:
  assumes "loadIgnoreRules e fs = Some rules"
    and "fileRows (t_db (trackFiles e fs d)) q \<noteq> fileRows d q"
  shows "q \<in> fst ` set (filesUnder [] fs) \<and> reached e rules [] q"
proof -
  let ?st0 = "\<lparr>t_db = d, t_out = [], t_thrown = False\<rparr>"
  from assms obtain pid where
    "fileRows (t_db (traverseDirectory e rules pid [] fs ?st0)) q \<noteq> fileRows (t_db ?st0) q"
    by (auto simp: trackFiles_def Let_def split: if_splits option.splits)
  from traverse_frame(1)[OF this] show ?thesis .
qed

lemma excluded_iff:
  "excluded e rules p \<longleftrightarrow>
     (\<exists>k. 0 < k \<and> k \<le> length p \<and> someMatch e rules (path_string (take k p)) = Some True)"
proof -
  have *: "k \<in> {1..<Suc (length p)} \<longleftrightarrow> 0 < k \<and> k \<le> length p" for k
    by auto
  show ?thesis
    by (simp only: excluded_def list_ex_iff set_upt Bex_def * conj_assoc)
qed

lemma trackFiles_excluded:
  assumes "loadIgnoreRules e fs = Some rules" and "excluded e rules p"
  shows "fileRows (t_db (trackFiles e fs d)) p = fileRows d p"
proof (rule ccontr)
  assume "fileRows (t_db (trackFiles e fs d)) p \<noteq> fileRows d p"
  from trackFiles_frame[OF assms(1) this] have "reached e rules [] p" by simp
  with assms(2) show False by (auto simp: reached_iff excluded_iff)
qed





lemma loadIgnoreRules_fs_project:
  "loadIgnoreRules env_ok fs_project = Some default_rules"
  by code_simp

lemma someMatch_fs_project:
  "someMatch env_ok default_rules ''.svcignore'' = Some False"
  "someMatch env_ok default_rules ''a.txt'' = Some False"
  "someMatch env_ok default_rules ''debug.log'' = Some True"
  "someMatch env_ok default_rules ''node_modules'' = Some False"
  "someMatch env_ok default_rules ''node_modules/x.js'' = Some False"
  by code_simp+

lemma trackFiles_fs_project:
  "trackFiles env_ok fs_project db_new =
     \<lparr>t_db = db_new\<lparr>files :=
               [\<lparr>f_id = 1, f_project = 1, f_path = [''.svcignore''],
                 f_hash = ''#node_modules/\<newline>.git/\<newline>*.log\<newline>*.tmp\<newline>*.db'', f_modified = 7\<rparr>,
                \<lparr>f_id = 2, f_project = 1, f_path = [''a.txt''], f_hash = ''#1'', f_modified = 7\<rparr>,
                \<lparr>f_id = 3, f_project = 1, f_path = [''node_modules'', ''x.js''], f_hash = ''#x'', f_modified = 7\<rparr>],
             files_seq := 3\<rparr>,
      t_out = [Ignored [''debug.log''], TrackingCompleted], t_thrown = False\<rparr>"
  by code_simp



text \<open>
  Claim C8 fails on the code for the directory rules \<^verbatim>\<open>initProject\<close> itself writes. The
  rule \<^verbatim>\<open>node_modules/\<close> becomes the expression \<^verbatim>\<open>^node_modules/$\<close>, the relative path of
  the directory is \<^verbatim>\<open>node_modules\<close> with no slash at its end, the test answers no, the
  tracker goes into the directory and gives \<^verbatim>\<open>node_modules/x.js\<close> a File row. (What does
  hold is \<open>trackFiles_excluded\<close>: below a directory whose own relative path is matched,
  no File row is touched.)
\<close>

theorem trackFiles_directory_rule_descends:
  "loadIgnoreRules env_ok fs_project = Some default_rules \<and>
   default_rules ! 0 = ''node_modules/'' \<and>
   someMatch env_ok default_rules ''node_modules'' = Some False \<and>
   map f_path (files (t_db (trackFiles env_ok fs_project db_new))) =
     [[''.svcignore''], [''a.txt''], [''node_modules'', ''x.js'']]"
  by (simp add: loadIgnoreRules_fs_project someMatch_fs_project trackFiles_fs_project)
     (simp add: default_rules_def)


section \<open>Facts about comparing snapshots\<close>

lemma spread2_keys: "fst ` set (spread2 files1 files2) = fst ` set files1 \<union> fst ` set files2"
proof -
  have "fst ` set (fold (\<lambda>(k, v) obj. AList.update k v obj) f2 f1) = fst ` set f1 \<union> fst ` set f2"
    for f1 f2 :: jsobj
  proof (induction f2 arbitrary: f1)
    case Nil
    then show ?case by simp
  next
    case (Cons kv f2)
    obtain k v where kv: "kv = (k, v)" by (cases kv)
    have "fst ` set (fold (\<lambda>(k, v) obj. AList.update k v obj) (kv # f2) f1) =
          fst ` set (AList.update k v f1) \<union> fst ` set f2"
      using Cons.IH[of "AList.update k v f1"] kv by simp
    also have "\<dots> = ({k} \<union> fst ` set f1) \<union> fst ` set f2" by (simp only: dom_update)
    finally show ?case using kv by auto
  qed
  then show ?thesis by (simp add: spread2_def)
qed

text \<open>
  The paths compared are the keys of the two objects together, and a path that is a key
  of the second object only is compared with the empty string on the first side unless
  it is the name of a member of \<^verbatim>\<open>Object.prototype\<close>.
\<close>

lemma comparedFiles_paths:
  "fst ` set (comparedFiles files1 files2) = fst ` set files1 \<union> fst ` set files2"
  by (simp add: comparedFiles_def object_keys_def image_image spread2_keys [symmetric])

lemma comparedFiles_missing_side:
  assumes "(p, c1, c2) \<in> set (comparedFiles files1 files2)"
    and "p \<notin> fst ` set files1" and "p \<notin> set objectPrototypeNames"
  shows "c1 = Str []"
proof -
  from assms(2) have "map_of files1 p = None" by (simp add: map_of_eq_None_iff)
  with assms(1,3) show ?thesis by (auto simp: comparedFiles_def js_get_def)
qed





text \<open>
  Claim C9 fails on the code for a path that is the name of a member of
  \<^verbatim>\<open>Object.prototype\<close>. The file \<open>constructor\<close> is in snapshot 2 only; the read
  \<^verbatim>\<open>files1['constructor']\<close> finds no own property and returns the inherited function,
  which is truthy, so the first side handed to \<^verbatim>\<open>displaySideBySideDiff\<close> is that function
  and not the empty string. (For every other path the claim holds:
  \<open>comparedFiles_paths\<close> and \<open>comparedFiles_missing_side\<close>.)
\<close>

theorem diffSnapshots_inherited_member:
  "selectSnapshotFilesIn db_two 1 2 = [(1, ''a.txt'', ''1''), (2, ''a.txt'', ''3''), (2, ''constructor'', ''k'')] \<and>
   diffSnapshots env_ok db_two [1, 2] no_filter =
     [DiffBetween 1 2,
      SideBySideDiff ''a.txt'' (Str ''1'') (Str ''3''),
      SideBySideDiff ''constructor'' (Inherited ''constructor'') (Str ''k'')]"
  by code_simp


end
